theory Spec2Isabelle
  imports Complex_Main "HOL-Library.AList" "HOL-Library.Multiset" "HOL-Library.Code_Target_Nat"
begin

section \<open>Service metrics aggregation: the data model\<close>

text \<open>
  The development embeds \<open>ServiceMetricsService.aggregateServiceMetrics\<close> and the
  helpers it calls (\<open>buildDateFilter\<close>, \<open>buildServiceFilter\<close>, \<open>getTimeRangeInMs\<close>,
  \<open>processErrorsByStatusCode\<close>, \<open>processErrorsBySeverity\<close>, \<open>rankServices\<close>,
  \<open>calculateResourceUtilization\<close>) together with \<open>DateUtils.getTimeRangeInMinutes\<close>
  and \<open>DateUtils.getDateRangeFromTimeOption\<close>.

  Numbers. A JavaScript \<open>number\<close> that holds a count, a status code or a millisecond
  instant is an \<open>int\<close>; one that holds a measurement or a quotient is an exact
  rational (\<open>rat\<close>). The model therefore computes sums, quotients and the rounding
  to two decimals with exact arithmetic where the program computes with IEEE doubles;
  the one product whose result is used as an array index, \<open>length * 0.95\<close> and
  \<open>length * 0.99\<close>, is modelled in double precision. A value that can be \<open>null\<close>, \<open>undefined\<close> or
  \<open>NaN\<close> in the program is an \<open>option\<close>, and each definition says which of the three
  its \<open>None\<close> stands for.
\<close>

datatype level = Low | Medium | High | Critical

fun level_str :: "level \<Rightarrow> string" where
  "level_str Low = ''low''"
| "level_str Medium = ''medium''"
| "level_str High = ''high''"
| "level_str Critical = ''critical''"

text \<open>\<open>ServiceMetric\<close>: the fields the aggregation reads. \<open>None\<close> in \<open>cpuUsage\<close> and
  \<open>memoryUsage\<close> is an absent field.\<close>

record ServiceMetric =
  servicename :: string
  severity :: level
  timestamp :: int
  responseTime :: rat
  statusCode :: int
  requestCount :: int
  cpuUsage :: "rat option"
  memoryUsage :: "rat option"

text \<open>\<open>AggregationQuery\<close>. \<open>None\<close> is an absent field; \<open>None\<close> in \<open>limit\<close> also stands
  for the \<open>NaN\<close> that \<open>parseInt\<close> gives the controller on a non-numeric string (both
  are falsy and take the same branch of \<open>rankServices\<close>).\<close>

record AggregationQuery =
  timeRange :: "string option"
  startDate :: "string option"
  endDate :: "string option"
  servicenames :: "string list option"
  severities :: "string list option"
  rankBy :: "string option"
  limit :: "int option"

record type_entry =
  statusCode_t :: int
  count_t :: int
  percentage_t :: rat

record severity_entry =
  severity_s :: level
  count_s :: int
  percentage_s :: rat

record rate_stats =
  requestsPerSecond :: rat
  requestsPerMinute :: rat
  totalRequests :: int

record error_stats =
  errorRate :: rat
  errorCount :: int
  totalRequests_e :: int
  errorsByType :: "type_entry list"
  errorsBySeverity :: "severity_entry list"

text \<open>In \<open>duration_stats\<close>, \<open>None\<close> in the median and the percentiles is \<open>NaN\<close> (the
  rounding of \<open>undefined\<close>); \<open>None\<close> in the minimum and maximum is the \<open>null\<close> that
  \<open>$min\<close> and \<open>$max\<close> give on an empty array.\<close>

record duration_stats =
  averageResponseTime :: rat
  medianResponseTime :: "rat option"
  p95ResponseTime :: "rat option"
  p99ResponseTime :: "rat option"
  minResponseTime :: "rat option"
  maxResponseTime :: "rat option"

record saturation_stats =
  averageCpuUsage :: rat
  averageMemoryUsage :: rat
  maxCpuUsage :: "rat option"
  maxMemoryUsage :: "rat option"
  resourceUtilization :: level

record ServiceAggregation =
  servicename_a :: string
  rank :: nat
  rate :: rate_stats
  error :: error_stats
  duration :: duration_stats
  saturation :: saturation_stats

section \<open>The environment: clock, date parsing, driver\<close>

text \<open>
  \<open>new Date()\<close> reads the system clock. The world carries the readings the clock will
  give, one per call, and the number of calls made so far.
\<close>

record world =
  clock :: "nat \<Rightarrow> int"
  reads :: nat

definition Date_now :: "world \<Rightarrow> int \<times> world" where
  "Date_now w = (clock w (reads w), w\<lparr>reads := Suc (reads w)\<rparr>)"

text \<open>
  Two library behaviours the source relies on are parameters of the model:
  \<open>newDate s\<close> is \<open>new Date(s).getTime()\<close>, with \<open>None\<close> for the \<open>NaN\<close> of an
  unparsable string; \<open>invalidDateMs\<close> is the instant the database driver stores for
  an Invalid Date when it serialises the filter.
\<close>

record driver =
  newDate :: "string \<Rightarrow> int option"
  invalidDateMs :: int

definition bsonDate :: "driver \<Rightarrow> int option \<Rightarrow> int" where
  "bsonDate drv d = (case d of Some t \<Rightarrow> t | None \<Rightarrow> invalidDateMs drv)"

text \<open>Truthiness of an optional string: absent and empty are falsy.\<close>

definition truthy_str :: "string option \<Rightarrow> bool" where
  "truthy_str s = (case s of None \<Rightarrow> False | Some t \<Rightarrow> t \<noteq> [])"

section \<open>Query normalisation\<close>

text \<open>\<open>DateUtils.getTimeRangeInMinutes\<close>: a table lookup, \<open>|| 0\<close> for any other key.\<close>

definition getTimeRangeInMinutes :: "string \<Rightarrow> int" where
  "getTimeRangeInMinutes tr =
     (if tr = ''5minutes'' then 5
      else if tr = ''10minutes'' then 10
      else if tr = ''1hour'' then 60
      else if tr = ''24hours'' then 1440
      else if tr = ''7days'' then 10080
      else 0)"

definition getDateRangeFromTimeOption :: "world \<Rightarrow> string \<Rightarrow> (int \<times> int) \<times> world" where
  "getDateRangeFromTimeOption w tr =
     (let (endD, w') = Date_now w;
          minutes = getTimeRangeInMinutes tr;
          startD = endD - minutes * 60 * 1000
      in ((startD, endD), w'))"

text \<open>The two conditions \<open>buildDateFilter\<close> and \<open>getTimeRangeInMs\<close> both test:
  \<open>query.timeRange && query.timeRange !== 'custom'\<close> and
  \<open>query.startDate && query.endDate\<close>.\<close>

definition named_range :: "AggregationQuery \<Rightarrow> bool" where
  "named_range q = (truthy_str (timeRange q) \<and> timeRange q \<noteq> Some ''custom'')"

definition has_bounds :: "AggregationQuery \<Rightarrow> bool" where
  "has_bounds q = (truthy_str (startDate q) \<and> truthy_str (endDate q))"

text \<open>\<open>buildDateFilter\<close>: \<open>Some (lo, hi)\<close> is the filter
  \<open>timestamp: {$gte: lo, $lte: hi}\<close>, \<open>None\<close> the empty filter.\<close>

definition buildDateFilter ::
  "driver \<Rightarrow> world \<Rightarrow> AggregationQuery \<Rightarrow> (int \<times> int) option \<times> world" where
  "buildDateFilter drv w q =
     (if named_range q then
        (let (r, w') = getDateRangeFromTimeOption w (the (timeRange q)) in (Some r, w'))
      else if has_bounds q then
        (Some (bsonDate drv (newDate drv (the (startDate q))),
               bsonDate drv (newDate drv (the (endDate q)))), w)
      else (None, w))"

text \<open>\<open>buildServiceFilter\<close>: the two optional \<open>$in\<close> lists; \<open>None\<close> is no constraint.\<close>

definition in_filter :: "string list option \<Rightarrow> string list option" where
  "in_filter l = (case l of None \<Rightarrow> None | Some xs \<Rightarrow> if length xs > 0 then Some xs else None)"

definition buildServiceFilter ::
  "AggregationQuery \<Rightarrow> string list option \<times> string list option" where
  "buildServiceFilter q = (in_filter (servicenames q), in_filter (severities q))"

text \<open>The \<open>$match\<close> stage on \<open>{...dateFilter, ...serviceFilter}\<close>: the three keys are
  distinct, so the merged filter is their conjunction.\<close>

definition matchStage ::
  "(int \<times> int) option \<Rightarrow> string list option \<times> string list option \<Rightarrow> ServiceMetric \<Rightarrow> bool" where
  "matchStage dateFilter serviceFilter e =
     ((case dateFilter of None \<Rightarrow> True
        | Some (lo, hi) \<Rightarrow> lo \<le> timestamp e \<and> timestamp e \<le> hi) \<and>
      (case fst serviceFilter of None \<Rightarrow> True | Some ns \<Rightarrow> servicename e \<in> set ns) \<and>
      (case snd serviceFilter of None \<Rightarrow> True
        | Some ss \<Rightarrow> level_str (severity e) \<in> set ss))"

text \<open>\<open>getTimeRangeInMs\<close>; \<open>None\<close> is the \<open>NaN\<close> of a bound that does not parse.\<close>

definition getTimeRangeInMs :: "driver \<Rightarrow> AggregationQuery \<Rightarrow> int option" where
  "getTimeRangeInMs drv q =
     (if named_range q then
        Some (getTimeRangeInMinutes (the (timeRange q)) * 60 * 1000)
      else if has_bounds q then
        (case (newDate drv (the (endDate q)), newDate drv (the (startDate q))) of
           (Some e, Some s) \<Rightarrow> Some (e - s)
         | _ \<Rightarrow> None)
      else Some (24 * 60 * 60 * 1000))"

definition timeRangeSeconds :: "driver \<Rightarrow> AggregationQuery \<Rightarrow> rat option" where
  "timeRangeSeconds drv q = map_option (\<lambda>ms. of_int ms / 1000) (getTimeRangeInMs drv q)"

definition timeRangeMinutes :: "driver \<Rightarrow> AggregationQuery \<Rightarrow> rat option" where
  "timeRangeMinutes drv q = map_option (\<lambda>s. s / 60) (timeRangeSeconds drv q)"

text \<open>\<open>x || 1\<close> on a number: \<open>0\<close> and \<open>NaN\<close> are falsy.\<close>

definition or_one :: "rat option \<Rightarrow> rat" where
  "or_one x = (case x of None \<Rightarrow> 1 | Some v \<Rightarrow> if v = 0 then 1 else v)"

section \<open>The aggregation pipeline\<close>

subsection \<open>\<open>$group\<close>\<close>

text \<open>
  One accumulator document per \<open>servicename\<close>. The stage reads the matching events
  in the order the collection delivers them; a new key opens a group after the
  existing ones, \<open>$sum\<close> adds and \<open>$push\<close> appends. The two error arrays hold
  \<open>null\<close> (here \<open>None\<close>) for an event that is not an error.
\<close>

record group =
  g_id :: string
  g_totalRequests :: int
  g_errorCount :: int
  g_responseTimes :: "rat list"
  g_cpuUsages :: "rat list"
  g_memoryUsages :: "rat list"
  g_errorsByStatusCode :: "(int \<times> int) option list"
  g_errorsBySeverity :: "(level \<times> int) option list"

definition init_group :: "string \<Rightarrow> group" where
  "init_group s = \<lparr>g_id = s, g_totalRequests = 0, g_errorCount = 0, g_responseTimes = [],
     g_cpuUsages = [], g_memoryUsages = [], g_errorsByStatusCode = [],
     g_errorsBySeverity = []\<rparr>"

definition ifNull :: "rat option \<Rightarrow> rat \<Rightarrow> rat" where
  "ifNull v d = (case v of None \<Rightarrow> d | Some x \<Rightarrow> x)"

definition accumulate :: "ServiceMetric \<Rightarrow> group \<Rightarrow> group" where
  "accumulate e g =
     g\<lparr>g_totalRequests := g_totalRequests g + requestCount e,
       g_errorCount := g_errorCount g + (if statusCode e \<ge> 400 then requestCount e else 0),
       g_responseTimes := g_responseTimes g @ [responseTime e],
       g_cpuUsages := g_cpuUsages g @ [ifNull (cpuUsage e) 0],
       g_memoryUsages := g_memoryUsages g @ [ifNull (memoryUsage e) 0],
       g_errorsByStatusCode := g_errorsByStatusCode g @
         [if statusCode e \<ge> 400 then Some (statusCode e, requestCount e) else None],
       g_errorsBySeverity := g_errorsBySeverity g @
         [if statusCode e \<ge> 400 then Some (severity e, requestCount e) else None]\<rparr>"

fun add_event :: "ServiceMetric \<Rightarrow> group list \<Rightarrow> group list" where
  "add_event e [] = [accumulate e (init_group (servicename e))]"
| "add_event e (g # gs) =
     (if g_id g = servicename e then accumulate e g # gs else g # add_event e gs)"

definition group_stage :: "ServiceMetric list \<Rightarrow> group list" where
  "group_stage evs = foldl (\<lambda>gs e. add_event e gs) [] evs"

subsection \<open>\<open>$project\<close> and \<open>$addFields\<close>\<close>

datatype error_t = DivideByZero

text \<open>\<open>$divide\<close> fails the whole aggregation on a zero divisor.\<close>

definition mongo_divide :: "rat \<Rightarrow> rat \<Rightarrow> error_t + rat" where
  "mongo_divide a b = (if b = 0 then Inl DivideByZero else Inr (a / b))"

text \<open>\<open>$avg\<close>, \<open>$min\<close>, \<open>$max\<close> over an array: \<open>null\<close> on the empty array.\<close>

definition mongo_avg :: "rat list \<Rightarrow> rat option" where
  "mongo_avg xs = (if xs = [] then None else Some (sum_list xs / of_nat (length xs)))"

definition mongo_min :: "rat list \<Rightarrow> rat option" where
  "mongo_min xs = (case xs of [] \<Rightarrow> None | x # r \<Rightarrow> Some (foldl min x r))"

definition mongo_max :: "rat list \<Rightarrow> rat option" where
  "mongo_max xs = (case xs of [] \<Rightarrow> None | x # r \<Rightarrow> Some (foldl max x r))"

text \<open>\<open>$slice: [array, position, n]\<close> for a non-negative position, and
  \<open>$arrayElemAt\<close>, whose result is missing (\<open>None\<close>) past the end.\<close>

definition mongo_slice :: "'a list \<Rightarrow> nat \<Rightarrow> nat \<Rightarrow> 'a list" where
  "mongo_slice xs pos n = take n (drop pos xs)"

definition arrayElemAt :: "'a list \<Rightarrow> nat \<Rightarrow> 'a option" where
  "arrayElemAt xs i = (if i < length xs then Some (xs ! i) else None)"

text \<open>\<open>$filter\<close> with \<open>$ne: ['$$this', null]\<close>.\<close>

definition filter_non_null :: "'a option list \<Rightarrow> 'a list" where
  "filter_non_null xs = map the (filter (\<lambda>x. x \<noteq> None) xs)"

record result =
  r_servicename :: string
  r_totalRequests :: int
  r_errorCount :: int
  r_errorRate :: rat
  r_requestsPerSecond :: rat
  r_requestsPerMinute :: rat
  r_responseTimes :: "rat list"
  r_cpuUsages :: "rat list"
  r_memoryUsages :: "rat list"
  r_errorsByStatusCode :: "(int \<times> int) list"
  r_errorsBySeverity :: "(level \<times> int) list"
  r_averageResponseTime :: "rat option"
  r_medianResponseTime :: "rat option"
  r_minResponseTime :: "rat option"
  r_maxResponseTime :: "rat option"
  r_averageCpuUsage :: "rat option"
  r_averageMemoryUsage :: "rat option"
  r_maxCpuUsage :: "rat option"
  r_maxMemoryUsage :: "rat option"

text \<open>The two stages on one group document. \<open>secs\<close> and \<open>mins\<close> are the constants
  \<open>timeRangeSeconds || 1\<close> and \<open>timeRangeMinutes || 1\<close> the source writes into the
  pipeline.\<close>

definition project_stage :: "rat \<Rightarrow> rat \<Rightarrow> group \<Rightarrow> error_t + result" where
  "project_stage secs mins g =
     (case mongo_divide (of_int (g_errorCount g)) (of_int (g_totalRequests g)) of
        Inl err \<Rightarrow> Inl err
      | Inr ratio \<Rightarrow>
     (case mongo_divide (of_int (g_totalRequests g)) secs of
        Inl err \<Rightarrow> Inl err
      | Inr rps \<Rightarrow>
     (case mongo_divide (of_int (g_totalRequests g)) mins of
        Inl err \<Rightarrow> Inl err
      | Inr rpm \<Rightarrow>
        Inr \<lparr>r_servicename = g_id g,
             r_totalRequests = g_totalRequests g,
             r_errorCount = g_errorCount g,
             r_errorRate = ratio * 100,
             r_requestsPerSecond = rps,
             r_requestsPerMinute = rpm,
             r_responseTimes = g_responseTimes g,
             r_cpuUsages = g_cpuUsages g,
             r_memoryUsages = g_memoryUsages g,
             r_errorsByStatusCode = filter_non_null (g_errorsByStatusCode g),
             r_errorsBySeverity = filter_non_null (g_errorsBySeverity g),
             r_averageResponseTime = mongo_avg (g_responseTimes g),
             r_medianResponseTime =
               arrayElemAt
                 (mongo_slice (sort (g_responseTimes g))
                    (nat \<lfloor>(of_nat (length (g_responseTimes g)) :: rat) / 2\<rfloor>) 1) 0,
             r_minResponseTime = mongo_min (g_responseTimes g),
             r_maxResponseTime = mongo_max (g_responseTimes g),
             r_averageCpuUsage = mongo_avg (g_cpuUsages g),
             r_averageMemoryUsage = mongo_avg (g_memoryUsages g),
             r_maxCpuUsage = mongo_max (g_cpuUsages g),
             r_maxMemoryUsage = mongo_max (g_memoryUsages g)\<rparr>)))"

text \<open>The stage over all documents: the first failure fails the aggregation.\<close>

fun map_result :: "('a \<Rightarrow> error_t + 'b) \<Rightarrow> 'a list \<Rightarrow> error_t + 'b list" where
  "map_result f [] = Inr []"
| "map_result f (x # xs) =
     (case f x of Inl err \<Rightarrow> Inl err
      | Inr y \<Rightarrow> (case map_result f xs of Inl err \<Rightarrow> Inl err | Inr ys \<Rightarrow> Inr (y # ys)))"

definition pipeline ::
  "(int \<times> int) option \<Rightarrow> string list option \<times> string list option \<Rightarrow> rat \<Rightarrow> rat \<Rightarrow>
   ServiceMetric list \<Rightarrow> error_t + result list" where
  "pipeline dateFilter serviceFilter secs mins evs =
     map_result (project_stage secs mins)
       (group_stage (filter (matchStage dateFilter serviceFilter) evs))"

section \<open>Post-processing in the service\<close>

text \<open>\<open>Math.round\<close> rounds to the nearest integer, a half upwards; the source rounds
  to two decimals as \<open>Math.round(x * 100) / 100\<close>.\<close>

definition Math_round :: "rat \<Rightarrow> int" where
  "Math_round x = \<lfloor>x + 1 / 2\<rfloor>"

definition round2 :: "rat \<Rightarrow> rat" where
  "round2 x = of_int (Math_round (x * 100)) / 100"

text \<open>\<open>null\<close> in arithmetic is \<open>0\<close>: \<open>Math.round(null * 100) / 100 = 0\<close>.\<close>

definition to_number :: "rat option \<Rightarrow> rat" where
  "to_number v = (case v of None \<Rightarrow> 0 | Some x \<Rightarrow> x)"

text \<open>Reading \<open>xs[i]\<close>: \<open>undefined\<close> (\<open>None\<close>) past the end.\<close>

definition js_get :: "'a list \<Rightarrow> nat \<Rightarrow> 'a option" where
  "js_get xs i = (if i < length xs then Some (xs ! i) else None)"

subsection \<open>The percentile indices, in double precision\<close>

text \<open>
  \<open>Math.floor(responseTimes.length * 0.95)\<close> multiplies two doubles. The length of
  a JavaScript array is an integer below \<open>2^32\<close> and is exact as a double. The
  literals \<open>0.95\<close> and \<open>0.99\<close> denote the doubles nearest to them,
  \<open>8556839292003942 / 2^53\<close> and \<open>8917127262193582 / 2^53\<close>. The product is the
  exact product rounded to 53 significant bits, a tie to the even neighbour. With the
  common factor \<open>2^53\<close> taken out, the rounding acts on the natural number
  \<open>p = n * m\<close>, which is below \<open>2^85\<close>.
\<close>

text \<open>Rounding \<open>p\<close> to the nearest multiple of \<open>u\<close>, a tie to the even multiple.\<close>

definition round_mult :: "nat \<Rightarrow> nat \<Rightarrow> nat" where
  "round_mult u p =
     (let q = p div u; r = p mod u
      in (if 2 * r > u \<or> (2 * r = u \<and> odd q) then q + 1 else q) * u)"

text \<open>The number of low bits that do not fit into 53: the least \<open>s\<close> with
  \<open>p < 2^(53 + s)\<close>, found among \<open>0, \<dots>, 32\<close>.\<close>

definition binade_shift :: "nat \<Rightarrow> nat" where
  "binade_shift p =
     (case find (\<lambda>s. p < 2 ^ (53 + s)) [0..<33] of Some s \<Rightarrow> s | None \<Rightarrow> 33)"

definition round53 :: "nat \<Rightarrow> nat" where
  "round53 p = round_mult (2 ^ binade_shift p) p"

definition double_0_95 :: nat where
  "double_0_95 = 8556839292003942"

definition double_0_99 :: nat where
  "double_0_99 = 8917127262193582"

text \<open>\<open>times_double n m\<close> is the double product of \<open>n\<close> and \<open>m / 2^53\<close>.\<close>

definition times_double :: "nat \<Rightarrow> nat \<Rightarrow> rat" where
  "times_double n m = of_nat (round53 (n * m)) / 2 ^ 53"

definition p95Index :: "nat \<Rightarrow> nat" where
  "p95Index n = nat \<lfloor>times_double n double_0_95\<rfloor>"

definition p99Index :: "nat \<Rightarrow> nat" where
  "p99Index n = nat \<lfloor>times_double n double_0_99\<rfloor>"

subsection \<open>Error breakdowns\<close>

text \<open>A JavaScript \<open>Map\<close> iterates in insertion order and \<open>set\<close> on a present key
  keeps its place: an association list under \<open>AList.update\<close>.
  \<open>errorMap.get(k) || 0\<close> is \<open>0\<close> for an absent key.\<close>

definition map_get_or_zero :: "('k \<times> int) list \<Rightarrow> 'k \<Rightarrow> int" where
  "map_get_or_zero m k = (case map_of m k of None \<Rightarrow> 0 | Some v \<Rightarrow> v)"

definition percentage_of :: "int \<Rightarrow> int \<Rightarrow> rat" where
  "percentage_of c totalErrors =
     (if totalErrors > 0
      then of_int (Math_round ((of_int c / of_int totalErrors) * 10000)) / 100
      else 0)"

definition statusMap :: "(int \<times> int) list \<Rightarrow> (int \<times> int) list" where
  "statusMap errors =
     foldl (\<lambda>m err. if fst err \<noteq> 0
                     then AList.update (fst err) (map_get_or_zero m (fst err) + snd err) m
                     else m) [] errors"

definition processErrorsByStatusCode :: "(int \<times> int) list \<Rightarrow> int \<Rightarrow> type_entry list" where
  "processErrorsByStatusCode errors totalErrors =
     sort_key (\<lambda>a. - count_t a)
       (map (\<lambda>kv. \<lparr>statusCode_t = fst kv, count_t = snd kv,
                    percentage_t = percentage_of (snd kv) totalErrors\<rparr>)
          (statusMap errors))"

definition severityMap :: "(level \<times> int) list \<Rightarrow> (level \<times> int) list" where
  "severityMap errors =
     foldl (\<lambda>m err. if level_str (fst err) \<noteq> []
                     then AList.update (fst err) (map_get_or_zero m (fst err) + snd err) m
                     else m) [] errors"

definition processErrorsBySeverity :: "(level \<times> int) list \<Rightarrow> int \<Rightarrow> severity_entry list" where
  "processErrorsBySeverity errors totalErrors =
     sort_key (\<lambda>a. - count_s a)
       (map (\<lambda>kv. \<lparr>severity_s = fst kv, count_s = snd kv,
                    percentage_s = percentage_of (snd kv) totalErrors\<rparr>)
          (severityMap errors))"

subsection \<open>One service record\<close>

definition calculateResourceUtilization :: "rat \<Rightarrow> rat \<Rightarrow> level" where
  "calculateResourceUtilization cpu mem =
     (let maxUsage = max cpu mem in
      if maxUsage \<ge> 90 then Critical
      else if maxUsage \<ge> 70 then High
      else if maxUsage \<ge> 50 then Medium
      else Low)"

definition process_result :: "nat \<Rightarrow> result \<Rightarrow> ServiceAggregation" where
  "process_result index r =
     (let responseTimes = sort (r_responseTimes r);
          i95 = p95Index (length responseTimes);
          i99 = p99Index (length responseTimes);
          byType = processErrorsByStatusCode (r_errorsByStatusCode r) (r_errorCount r);
          bySeverity = processErrorsBySeverity (r_errorsBySeverity r) (r_errorCount r)
      in \<lparr>servicename_a = r_servicename r,
          rank = index + 1,
          rate = \<lparr>requestsPerSecond = round2 (r_requestsPerSecond r),
                   requestsPerMinute = round2 (r_requestsPerMinute r),
                   totalRequests = r_totalRequests r\<rparr>,
          error = \<lparr>errorRate = round2 (r_errorRate r),
                    errorCount = r_errorCount r,
                    totalRequests_e = r_totalRequests r,
                    errorsByType = byType,
                    errorsBySeverity = bySeverity\<rparr>,
          duration = \<lparr>averageResponseTime = round2 (to_number (r_averageResponseTime r)),
                       medianResponseTime = map_option round2 (r_medianResponseTime r),
                       p95ResponseTime = map_option round2 (js_get responseTimes i95),
                       p99ResponseTime = map_option round2 (js_get responseTimes i99),
                       minResponseTime = r_minResponseTime r,
                       maxResponseTime = r_maxResponseTime r\<rparr>,
          saturation = \<lparr>averageCpuUsage = round2 (to_number (r_averageCpuUsage r)),
                         averageMemoryUsage = round2 (to_number (r_averageMemoryUsage r)),
                         maxCpuUsage = r_maxCpuUsage r,
                         maxMemoryUsage = r_maxMemoryUsage r,
                         resourceUtilization =
                           calculateResourceUtilization
                             (to_number (r_averageCpuUsage r))
                             (to_number (r_averageMemoryUsage r))\<rparr>\<rparr>)"

subsection \<open>Ranking\<close>

text \<open>The key each branch of the \<open>switch\<close> sorts by; every comparator is
  \<open>key b - key a\<close>, so the order is descending in the key.\<close>

definition rank_key :: "string \<Rightarrow> ServiceAggregation \<Rightarrow> rat" where
  "rank_key crit s =
     (if crit = ''rate'' then requestsPerSecond (rate s)
      else if crit = ''error'' then errorRate (error s)
      else if crit = ''duration'' then averageResponseTime (duration s)
      else if crit = ''saturation'' then
        max (averageCpuUsage (saturation s)) (averageMemoryUsage (saturation s))
      else errorRate (error s))"

text \<open>\<open>xs.slice(0, k)\<close>: a negative end counts from the end of the array.\<close>

definition js_slice0 :: "'a list \<Rightarrow> int \<Rightarrow> 'a list" where
  "js_slice0 xs k = (if k < 0 then take (nat (int (length xs) + k)) xs else take (nat k) xs)"

text \<open>\<open>Array.prototype.sort\<close> is stable; \<open>sort_key\<close> is the stable insertion sort.\<close>

definition rankServices ::
  "ServiceAggregation list \<Rightarrow> string \<Rightarrow> int option \<Rightarrow> ServiceAggregation list" where
  "rankServices services crit lmt =
     (let sortedServices = sort_key (\<lambda>s. - rank_key crit s) services;
          ranked = map (\<lambda>(i, s). s\<lparr>rank := i + 1\<rparr>) (enumerate 0 sortedServices)
      in case lmt of
           None \<Rightarrow> ranked
         | Some k \<Rightarrow> if k = 0 then ranked else js_slice0 ranked k)"

subsection \<open>\<open>aggregateServiceMetrics\<close>\<close>

text \<open>\<open>query.rankBy || 'error'\<close>.\<close>

definition rankBy_or_error :: "AggregationQuery \<Rightarrow> string" where
  "rankBy_or_error q = (if truthy_str (rankBy q) then the (rankBy q) else ''error'')"

text \<open>\<open>evs\<close> is the content of the \<open>service_metrics\<close> collection in the order the
  database delivers it. A failure of the pipeline rejects the promise (\<open>Inl\<close>).\<close>

definition aggregateServiceMetrics ::
  "driver \<Rightarrow> world \<Rightarrow> AggregationQuery \<Rightarrow> ServiceMetric list \<Rightarrow>
   (error_t + ServiceAggregation list) \<times> world" where
  "aggregateServiceMetrics drv w q evs =
     (let (dateFilter, w') = buildDateFilter drv w q;
          serviceFilter = buildServiceFilter q;
          secs = timeRangeSeconds drv q;
          mins = timeRangeMinutes drv q
      in (case pipeline dateFilter serviceFilter (or_one secs) (or_one mins) evs of
            Inl err \<Rightarrow> Inl err
          | Inr results \<Rightarrow>
              Inr (rankServices (map (\<lambda>(i, r). process_result i r) (enumerate 0 results))
                     (rankBy_or_error q) (limit q)),
          w'))"

section \<open>Notions used in the statements\<close>

text \<open>The events a query lets through the \<open>$match\<close> stage.\<close>

definition matching :: "driver \<Rightarrow> world \<Rightarrow> AggregationQuery \<Rightarrow> ServiceMetric list \<Rightarrow> ServiceMetric list" where
  "matching drv w q evs = filter (matchStage (fst (buildDateFilter drv w q)) (buildServiceFilter q)) evs"

text \<open>The events of service \<open>s\<close> that a query lets through.\<close>

definition events_of ::
  "driver \<Rightarrow> world \<Rightarrow> AggregationQuery \<Rightarrow> ServiceMetric list \<Rightarrow> string \<Rightarrow> ServiceMetric list" where
  "events_of drv w q evs s = filter (\<lambda>e. servicename e = s) (matching drv w q evs)"


text \<open>The document the stage holds for service \<open>s\<close>: the accumulators run over the
  events of \<open>s\<close>, in order.\<close>

definition group_of :: "string \<Rightarrow> ServiceMetric list \<Rightarrow> group" where
  "group_of s evs =
     foldl (\<lambda>g e. accumulate e g) (init_group s) (filter (\<lambda>e. servicename e = s) evs)"

text \<open>The loop \<open>processErrorsByStatusCode\<close> and \<open>processErrorsBySeverity\<close> share, with
  the truthiness test on the key as a parameter.\<close>

definition tally :: "('k \<Rightarrow> bool) \<Rightarrow> ('k \<times> int) list \<Rightarrow> ('k \<times> int) list" where
  "tally ok errors =
     foldl (\<lambda>m err. if ok (fst err)
                     then AList.update (fst err) (map_get_or_zero m (fst err) + snd err) m
                     else m) [] errors"

text \<open>The ranking key as the specification's table states it: requests per second for
  \<open>rate\<close>, average response time for \<open>duration\<close>, the larger of the two average
  usages for \<open>saturation\<close>, and the error rate for \<open>error\<close> and when no criterion is
  given.\<close>

definition criterion_key :: "AggregationQuery \<Rightarrow> ServiceAggregation \<Rightarrow> rat" where
  "criterion_key q s =
     (case rankBy q of
        None \<Rightarrow> errorRate (error s)
      | Some c \<Rightarrow>
          if c = ''rate'' then requestsPerSecond (rate s)
          else if c = ''duration'' then averageResponseTime (duration s)
          else if c = ''saturation'' then
            max (averageCpuUsage (saturation s)) (averageMemoryUsage (saturation s))
          else errorRate (error s))"

section \<open>A sample collection and sample queries\<close>

text \<open>Service \<open>A\<close> has the three events of the worked example (response times 10, 20,
  30; one error); service \<open>B\<close> has three error events with two status codes.\<close>

definition sample_events :: "ServiceMetric list" where
  "sample_events =
     [\<lparr>servicename = ''A'', severity = High, timestamp = 990000, responseTime = 10,
        statusCode = 200, requestCount = 1, cpuUsage = None, memoryUsage = Some 40\<rparr>,
      \<lparr>servicename = ''B'', severity = Low, timestamp = 991000, responseTime = 2501 / 250,
        statusCode = 404, requestCount = 2, cpuUsage = Some 95, memoryUsage = None\<rparr>,
      \<lparr>servicename = ''A'', severity = Critical, timestamp = 992000, responseTime = 20,
        statusCode = 500, requestCount = 1, cpuUsage = Some 30, memoryUsage = Some 20\<rparr>,
      \<lparr>servicename = ''B'', severity = High, timestamp = 993000, responseTime = 9,
        statusCode = 500, requestCount = 1, cpuUsage = Some 85, memoryUsage = Some 10\<rparr>,
      \<lparr>servicename = ''A'', severity = Medium, timestamp = 994000, responseTime = 30,
        statusCode = 200, requestCount = 1, cpuUsage = None, memoryUsage = None\<rparr>,
      \<lparr>servicename = ''B'', severity = Low, timestamp = 995000, responseTime = 7,
        statusCode = 404, requestCount = 1, cpuUsage = None, memoryUsage = Some 60\<rparr>]"

text \<open>A fragment of date parsing: the two strings the sample queries use.\<close>

definition sample_newDate :: "string \<Rightarrow> int option" where
  "sample_newDate s =
     (if s = ''1970-01-01T00:15:00Z'' then Some 900000
      else if s = ''1970-01-01T00:16:40Z'' then Some 1000000
      else None)"

definition sample_driver :: driver where
  "sample_driver = \<lparr>newDate = sample_newDate, invalidDateMs = 0\<rparr>"

definition sample_world :: world where
  "sample_world = \<lparr>clock = (\<lambda>n. 1000000 + int n), reads = 0\<rparr>"

definition empty_query :: AggregationQuery where
  "empty_query = \<lparr>timeRange = None, startDate = None, endDate = None, servicenames = None,
     severities = None, rankBy = None, limit = None\<rparr>"

definition duration_query :: AggregationQuery where
  "duration_query = empty_query\<lparr>rankBy := Some ''duration''\<rparr>"



text \<open>Queries with explicit bounds: a window of 100 seconds that covers the sample
  events, and the same bounds the wrong way round.\<close>

definition custom_query :: AggregationQuery where
  "custom_query = empty_query\<lparr>startDate := Some ''1970-01-01T00:15:00Z'',
     endDate := Some ''1970-01-01T00:16:40Z''\<rparr>"

definition reversed_query :: AggregationQuery where
  "reversed_query = empty_query\<lparr>startDate := Some ''1970-01-01T00:16:40Z'',
     endDate := Some ''1970-01-01T00:15:00Z''\<rparr>"


text \<open>What the service returns for the sample collection under the empty query
  (ranking by error rate, no limit, nominal 24 hour window).\<close>

definition sample_B :: ServiceAggregation where
  "sample_B =
     \<lparr>servicename_a = ''B'', rank = 1,
      rate = \<lparr>requestsPerSecond = 0, requestsPerMinute = 0, totalRequests = 4\<rparr>,
      error = \<lparr>errorRate = 100, errorCount = 4, totalRequests_e = 4,
        errorsByType =
          [\<lparr>statusCode_t = 404, count_t = 3, percentage_t = 75\<rparr>,
           \<lparr>statusCode_t = 500, count_t = 1, percentage_t = 25\<rparr>],
        errorsBySeverity =
          [\<lparr>severity_s = Low, count_s = 3, percentage_s = 75\<rparr>,
           \<lparr>severity_s = High, count_s = 1, percentage_s = 25\<rparr>]\<rparr>,
      duration = \<lparr>averageResponseTime = 867 / 100, medianResponseTime = Some 9,
        p95ResponseTime = Some 10, p99ResponseTime = Some 10,
        minResponseTime = Some 7, maxResponseTime = Some (2501 / 250)\<rparr>,
      saturation = \<lparr>averageCpuUsage = 60, averageMemoryUsage = 2333 / 100,
        maxCpuUsage = Some 95, maxMemoryUsage = Some 60, resourceUtilization = Medium\<rparr>\<rparr>"

definition sample_A :: ServiceAggregation where
  "sample_A =
     \<lparr>servicename_a = ''A'', rank = 2,
      rate = \<lparr>requestsPerSecond = 0, requestsPerMinute = 0, totalRequests = 3\<rparr>,
      error = \<lparr>errorRate = 3333 / 100, errorCount = 1, totalRequests_e = 3,
        errorsByType = [\<lparr>statusCode_t = 500, count_t = 1, percentage_t = 100\<rparr>],
        errorsBySeverity = [\<lparr>severity_s = Critical, count_s = 1, percentage_s = 100\<rparr>]\<rparr>,
      duration = \<lparr>averageResponseTime = 20, medianResponseTime = Some 20,
        p95ResponseTime = Some 30, p99ResponseTime = Some 30,
        minResponseTime = Some 10, maxResponseTime = Some 30\<rparr>,
      saturation = \<lparr>averageCpuUsage = 10, averageMemoryUsage = 20,
        maxCpuUsage = Some 30, maxMemoryUsage = Some 40, resourceUtilization = Low\<rparr>\<rparr>"

definition sample_B_custom :: ServiceAggregation where
  "sample_B_custom = sample_B\<lparr>rate :=
     \<lparr>requestsPerSecond = 1 / 25, requestsPerMinute = 12 / 5, totalRequests = 4\<rparr>\<rparr>"

definition sample_A_custom :: ServiceAggregation where
  "sample_A_custom = sample_A\<lparr>rate :=
     \<lparr>requestsPerSecond = 3 / 100, requestsPerMinute = 9 / 5, totalRequests = 3\<rparr>\<rparr>"

section \<open>Properties of the \<open>$group\<close> stage\<close>

lemma g_id_accumulate [simp]: "g_id (accumulate e g) = g_id g"
  by (simp add: accumulate_def)

lemma g_id_init_group [simp]: "g_id (init_group s) = s"
  by (simp add: init_group_def)

lemma add_event_ids:
  "map g_id (add_event e gs) =
     (if servicename e \<in> g_id ` set gs then map g_id gs else map g_id gs @ [servicename e])"
  by (induction gs) auto

lemma group_stage_snoc: "group_stage (evs @ [e]) = add_event e (group_stage evs)"
  by (simp add: group_stage_def)

lemma group_stage_Nil [simp]: "group_stage [] = []"
  by (simp add: group_stage_def)

lemma group_stage_ids_distinct: "distinct (map g_id (group_stage evs))"
  by (induction evs rule: rev_induct) (auto simp: group_stage_snoc add_event_ids)

lemma group_stage_ids_set: "g_id ` set (group_stage evs) = servicename ` set evs"
proof (induction evs rule: rev_induct)
  case Nil
  then show ?case by simp
next
  case (snoc e evs)
  have "g_id ` set (add_event e (group_stage evs)) = set (map g_id (add_event e (group_stage evs)))"
    by simp
  also have "\<dots> = insert (servicename e) (g_id ` set (group_stage evs))"
    by (auto simp: add_event_ids)
  finally show ?case using snoc by (simp add: group_stage_snoc)
qed

lemma add_event_mem:
  "distinct (map g_id gs) \<Longrightarrow> g \<in> set (add_event e gs) \<Longrightarrow>
     (g \<in> set gs \<and> g_id g \<noteq> servicename e) \<or>
     (\<exists>g0 \<in> set gs. g_id g0 = servicename e \<and> g = accumulate e g0) \<or>
     (servicename e \<notin> g_id ` set gs \<and> g = accumulate e (init_group (servicename e)))"
  by (induction gs) (auto simp: image_iff split: if_splits)

lemma group_of_snoc:
  "group_of s (evs @ [e]) =
     (if servicename e = s then accumulate e (group_of s evs) else group_of s evs)"
  by (simp add: group_of_def)

lemma group_of_fresh: "s \<notin> servicename ` set evs \<Longrightarrow> group_of s evs = init_group s"
proof -
  assume "s \<notin> servicename ` set evs"
  then have "filter (\<lambda>e. servicename e = s) evs = []"
    by (auto simp: filter_empty_conv)
  then show ?thesis by (simp add: group_of_def)
qed

lemma g_id_group_of [simp]: "g_id (group_of s evs) = s"
  by (induction evs rule: rev_induct) (auto simp: group_of_snoc group_of_def)

lemma group_stage_mem: "g \<in> set (group_stage evs) \<Longrightarrow> g = group_of (g_id g) evs"
proof (induction evs arbitrary: g rule: rev_induct)
  case Nil
  then show ?case by simp
next
  case (snoc e evs)
  from snoc.prems have "g \<in> set (add_event e (group_stage evs))"
    by (simp add: group_stage_snoc)
  then consider
      (old) "g \<in> set (group_stage evs)" "g_id g \<noteq> servicename e"
    | (upd) g0 where "g0 \<in> set (group_stage evs)" "g_id g0 = servicename e" "g = accumulate e g0"
    | (new) "servicename e \<notin> g_id ` set (group_stage evs)"
            "g = accumulate e (init_group (servicename e))"
    using add_event_mem [OF group_stage_ids_distinct] by blast
  then show ?case
  proof cases
    case old
    then show ?thesis using snoc.IH [of g] by (simp add: group_of_snoc)
  next
    case upd
    then show ?thesis using snoc.IH [of g0] by (simp add: group_of_snoc)
  next
    case new
    then have "group_of (servicename e) evs = init_group (servicename e)"
      by (simp add: group_of_fresh group_stage_ids_set)
    then show ?thesis using new by (simp add: group_of_snoc)
  qed
qed

lemma foldl_accumulate_fields:
  "g_totalRequests (foldl (\<lambda>g e. accumulate e g) g0 es) =
     g_totalRequests g0 + sum_list (map requestCount es)"
  "g_errorCount (foldl (\<lambda>g e. accumulate e g) g0 es) =
     g_errorCount g0 + sum_list (map requestCount (filter (\<lambda>e. statusCode e \<ge> 400) es))"
  "g_responseTimes (foldl (\<lambda>g e. accumulate e g) g0 es) =
     g_responseTimes g0 @ map responseTime es"
  "g_cpuUsages (foldl (\<lambda>g e. accumulate e g) g0 es) =
     g_cpuUsages g0 @ map (\<lambda>e. ifNull (cpuUsage e) 0) es"
  "g_memoryUsages (foldl (\<lambda>g e. accumulate e g) g0 es) =
     g_memoryUsages g0 @ map (\<lambda>e. ifNull (memoryUsage e) 0) es"
  "filter_non_null (g_errorsByStatusCode (foldl (\<lambda>g e. accumulate e g) g0 es)) =
     filter_non_null (g_errorsByStatusCode g0) @
       map (\<lambda>e. (statusCode e, requestCount e)) (filter (\<lambda>e. statusCode e \<ge> 400) es)"
  "filter_non_null (g_errorsBySeverity (foldl (\<lambda>g e. accumulate e g) g0 es)) =
     filter_non_null (g_errorsBySeverity g0) @
       map (\<lambda>e. (severity e, requestCount e)) (filter (\<lambda>e. statusCode e \<ge> 400) es)"
  by (induction es arbitrary: g0; simp add: accumulate_def filter_non_null_def)+

lemma group_of_fields:
  "g_totalRequests (group_of s evs) =
     sum_list (map requestCount (filter (\<lambda>e. servicename e = s) evs))"
  "g_errorCount (group_of s evs) =
     sum_list (map requestCount
       (filter (\<lambda>e. statusCode e \<ge> 400) (filter (\<lambda>e. servicename e = s) evs)))"
  "g_responseTimes (group_of s evs) = map responseTime (filter (\<lambda>e. servicename e = s) evs)"
  "g_cpuUsages (group_of s evs) =
     map (\<lambda>e. ifNull (cpuUsage e) 0) (filter (\<lambda>e. servicename e = s) evs)"
  "g_memoryUsages (group_of s evs) =
     map (\<lambda>e. ifNull (memoryUsage e) 0) (filter (\<lambda>e. servicename e = s) evs)"
  "filter_non_null (g_errorsByStatusCode (group_of s evs)) =
     map (\<lambda>e. (statusCode e, requestCount e))
       (filter (\<lambda>e. statusCode e \<ge> 400) (filter (\<lambda>e. servicename e = s) evs))"
  "filter_non_null (g_errorsBySeverity (group_of s evs)) =
     map (\<lambda>e. (severity e, requestCount e))
       (filter (\<lambda>e. statusCode e \<ge> 400) (filter (\<lambda>e. servicename e = s) evs))"
  unfolding group_of_def foldl_accumulate_fields
  by (simp_all add: init_group_def filter_non_null_def)

lemma group_stage_nonempty:
  assumes "g \<in> set (group_stage evs)"
  shows "filter (\<lambda>e. servicename e = g_id g) evs \<noteq> []"
proof -
  from assms have "g_id g \<in> servicename ` set evs"
    using group_stage_ids_set by blast
  then show ?thesis by (auto simp: filter_empty_conv)
qed

section \<open>From an output record back to its group\<close>

lemma map_result_mem:
  "map_result f xs = Inr ys \<Longrightarrow> y \<in> set ys \<Longrightarrow> \<exists>x \<in> set xs. f x = Inr y"
  by (induction xs arbitrary: ys) (auto split: sum.splits)

lemma map_result_total:
  "\<forall>x \<in> set xs. \<exists>y. f x = Inr y \<Longrightarrow> \<exists>ys. map_result f xs = Inr ys"
proof (induction xs)
  case Nil
  then show ?case by simp
next
  case (Cons a xs)
  then obtain y ys where "f a = Inr y" "map_result f xs = Inr ys" by auto
  then show ?case by simp
qed

lemma js_slice0_prefix: "\<exists>n. js_slice0 xs k = take n xs"
  by (auto simp: js_slice0_def)

lemma rankServices_prefix:
  "\<exists>n. rankServices svcs crit lmt =
     take n (map (\<lambda>(i, s). s\<lparr>rank := i + 1\<rparr>) (enumerate 0 (sort_key (\<lambda>s. - rank_key crit s) svcs)))"
proof (cases lmt)
  case None
  then show ?thesis by (auto simp: rankServices_def intro: exI [of _ "length svcs"])
next
  case (Some k)
  then show ?thesis
    using js_slice0_prefix by (auto simp: rankServices_def Let_def intro: exI [of _ "length svcs"])
qed

lemma rankServices_mem:
  assumes "s \<in> set (rankServices svcs crit lmt)"
  shows "\<exists>s0 \<in> set svcs. \<exists>k. s = s0\<lparr>rank := k\<rparr>"
proof -
  obtain n where "rankServices svcs crit lmt =
     take n (map (\<lambda>(i, s). s\<lparr>rank := i + 1\<rparr>) (enumerate 0 (sort_key (\<lambda>s. - rank_key crit s) svcs)))"
    using rankServices_prefix by blast
  with assms have "s \<in> set (map (\<lambda>(i, s). s\<lparr>rank := i + 1\<rparr>) (enumerate 0 (sort_key (\<lambda>s. - rank_key crit s) svcs)))"
    by (auto dest: in_set_takeD)
  then obtain i s0 where "(i, s0) \<in> set (enumerate 0 (sort_key (\<lambda>s. - rank_key crit s) svcs))"
    "s = s0\<lparr>rank := i + 1\<rparr>" by auto
  moreover then have "s0 \<in> set (sort_key (\<lambda>s. - rank_key crit s) svcs)"
    by (auto simp: in_set_enumerate_eq simp del: set_sort)
  then have "s0 \<in> set svcs" by simp
  ultimately show ?thesis by blast
qed

lemma aggregate_elem:
  assumes "fst (aggregateServiceMetrics drv w q evs) = Inr out" and "s \<in> set out"
  shows "\<exists>g r i k. g \<in> set (group_stage (matching drv w q evs)) \<and>
           project_stage (or_one (timeRangeSeconds drv q)) (or_one (timeRangeMinutes drv q)) g = Inr r \<and>
           s = (process_result i r)\<lparr>rank := k\<rparr>"
proof -
  let ?p = "pipeline (fst (buildDateFilter drv w q)) (buildServiceFilter q)
              (or_one (timeRangeSeconds drv q)) (or_one (timeRangeMinutes drv q)) evs"
  from assms(1) obtain results where res: "?p = Inr results"
    and out: "out = rankServices (map (\<lambda>(i, r). process_result i r) (enumerate 0 results))
                 (rankBy_or_error q) (limit q)"
    by (auto simp: aggregateServiceMetrics_def Let_def split: prod.splits sum.splits)
  from assms(2) out obtain s0 k where
    s0: "s0 \<in> set (map (\<lambda>(i, r). process_result i r) (enumerate 0 results))" and s: "s = s0\<lparr>rank := k\<rparr>"
    using rankServices_mem by blast
  from s0 obtain i r where "(i, r) \<in> set (enumerate 0 results)" and s0': "s0 = process_result i r"
    by auto
  then have "r \<in> set results" by (auto simp: in_set_enumerate_eq)
  with res obtain g where "g \<in> set (group_stage (matching drv w q evs))"
    "project_stage (or_one (timeRangeSeconds drv q)) (or_one (timeRangeMinutes drv q)) g = Inr r"
    unfolding pipeline_def matching_def by (auto dest: map_result_mem)
  with s s0' show ?thesis by blast
qed

lemma project_stage_InrD:
  assumes "project_stage secs mins g = Inr r"
  shows "r_servicename r = g_id g"
    and "r_totalRequests r = g_totalRequests g"
    and "r_errorCount r = g_errorCount g"
    and "g_totalRequests g \<noteq> 0"
    and "r_errorRate r = of_int (g_errorCount g) / of_int (g_totalRequests g) * 100"
    and "r_requestsPerSecond r = of_int (g_totalRequests g) / secs"
    and "r_requestsPerMinute r = of_int (g_totalRequests g) / mins"
    and "r_responseTimes r = g_responseTimes g"
    and "r_errorsByStatusCode r = filter_non_null (g_errorsByStatusCode g)"
    and "r_errorsBySeverity r = filter_non_null (g_errorsBySeverity g)"
    and "r_averageResponseTime r = mongo_avg (g_responseTimes g)"
    and "r_medianResponseTime r =
           arrayElemAt (mongo_slice (sort (g_responseTimes g))
             (nat \<lfloor>(of_nat (length (g_responseTimes g)) :: rat) / 2\<rfloor>) 1) 0"
    and "r_minResponseTime r = mongo_min (g_responseTimes g)"
    and "r_maxResponseTime r = mongo_max (g_responseTimes g)"
  using assms
  by (auto simp: project_stage_def mongo_divide_def split: if_splits sum.splits)

lemma aggregate_elem_group:
  assumes "fst (aggregateServiceMetrics drv w q evs) = Inr out" and "s \<in> set out"
  obtains r i k where
    "project_stage (or_one (timeRangeSeconds drv q)) (or_one (timeRangeMinutes drv q))
       (group_of (servicename_a s) (matching drv w q evs)) = Inr r"
    "s = (process_result i r)\<lparr>rank := k\<rparr>"
    "events_of drv w q evs (servicename_a s) \<noteq> []"
proof -
  from aggregate_elem [OF assms] obtain g r i k where
    g: "g \<in> set (group_stage (matching drv w q evs))" and
    p: "project_stage (or_one (timeRangeSeconds drv q)) (or_one (timeRangeMinutes drv q)) g = Inr r" and
    s: "s = (process_result i r)\<lparr>rank := k\<rparr>" by blast
  from s have "servicename_a s = r_servicename r" by (simp add: process_result_def Let_def)
  with p have id: "servicename_a s = g_id g" by (simp add: project_stage_InrD)
  from g have "g = group_of (g_id g) (matching drv w q evs)" by (rule group_stage_mem)
  with id p have "project_stage (or_one (timeRangeSeconds drv q)) (or_one (timeRangeMinutes drv q))
       (group_of (servicename_a s) (matching drv w q evs)) = Inr r" by simp
  moreover from g id have "events_of drv w q evs (servicename_a s) \<noteq> []"
    using group_stage_nonempty by (simp add: events_of_def)
  ultimately show ?thesis using s that by blast
qed

lemma aggregate_out:
  assumes "fst (aggregateServiceMetrics drv w q evs) = Inr out"
  obtains svcs where "out = rankServices svcs (rankBy_or_error q) (limit q)"
  using assms
  by (auto simp: aggregateServiceMetrics_def Let_def split: prod.splits sum.splits)




section \<open>Rounding to two decimals\<close>


lemma Math_round_of_int [simp]: "Math_round (of_int n) = n"
  unfolding Math_round_def by linarith



lemma round2_hundredths: "round2 (of_int n / 100) = of_int n / 100"
  by (simp add: round2_def)

lemma round2_of_int [simp]: "round2 (of_int n) = of_int n"
proof -
  have "round2 (of_int n) = round2 (of_int (n * 100) / 100)" by simp
  also have "\<dots> = of_int (n * 100) / 100" by (rule round2_hundredths)
  finally show ?thesis by simp
qed

lemma round2_0 [simp]: "round2 0 = 0"
  using round2_of_int [of 0] by simp

lemma round2_100 [simp]: "round2 100 = 100"
  using round2_of_int [of 100] by simp




section \<open>The double product and the exact product\<close>

lemma binade_shift_bounds:
  assumes "2 ^ 52 \<le> p" and "p < 2 ^ 85"
  shows "binade_shift p \<le> 32" and "p < 2 ^ (53 + binade_shift p)"
    and "2 ^ (52 + binade_shift p) \<le> p"
proof -
  let ?P = "\<lambda>s. p < 2 ^ (53 + s)"
  have "32 \<in> set [0..<33]" by simp
  moreover from assms(2) have "?P 32" by simp
  ultimately have "find ?P [0..<33] \<noteq> None" by (auto simp only: find_None_iff)
  then obtain s where f: "find ?P [0..<33] = Some s" by blast
  then have s: "binade_shift p = s" by (simp add: binade_shift_def)
  from f obtain i where i: "i < length [0..<33]" "?P ([0..<33] ! i)" "s = [0..<33] ! i"
    "\<forall>j<i. \<not> ?P ([0..<33] ! j)"
    unfolding find_Some_iff by blast
  from i(1) have i33: "i < 33" by simp
  with i(3) have si: "s = i" by (simp del: upt_Suc)
  from i33 si show "binade_shift p \<le> 32" by (simp add: s)
  from i(2) i33 si show "p < 2 ^ (53 + binade_shift p)" by (simp add: s del: upt_Suc)
  show "2 ^ (52 + binade_shift p) \<le> p"
  proof (cases s)
    case 0
    with assms(1) show ?thesis by (simp add: s)
  next
    case (Suc j)
    with si have j: "j < i" by simp
    with i(4) have "\<not> ?P ([0..<33] ! j)" by blast
    moreover from j i33 have "[0..<33] ! j = j" by (simp del: upt_Suc)
    ultimately have "2 ^ (53 + j) \<le> p" by simp
    then show ?thesis by (simp add: s Suc)
  qed
qed

lemma round_mult_one [simp]: "round_mult (Suc 0) p = p"
  by (simp add: round_mult_def)

lemma round_mult_upper: "0 < u \<Longrightarrow> round_mult u p \<le> p + u"
proof -
  assume u: "0 < u"
  have "round_mult u p \<le> (p div u + 1) * u" by (simp add: round_mult_def Let_def)
  also have "\<dots> = p div u * u + u" by simp
  also have "\<dots> \<le> p + u" by simp
  finally show ?thesis .
qed

lemma round_mult_lower:
  assumes "0 < u" and "l * u \<le> p"
  shows "l * u \<le> round_mult u p"
proof -
  from assms have "l \<le> p div u" by (simp add: less_eq_div_iff_mult_less_eq)
  then have "l * u \<le> p div u * u" by simp
  also have "\<dots> \<le> round_mult u p" by (simp add: round_mult_def Let_def)
  finally show ?thesis .
qed

lemma round_mult_up:
  assumes "p + d = l * u" and "0 < d" and "2 * d < u"
  shows "round_mult u p = l * u"
proof -
  from assms have "0 < l" by (cases l) simp_all
  then obtain l' where l: "l = Suc l'" by (cases l) simp_all
  from assms(1,3) have p: "p = l' * u + (u - d)" by (simp add: l)
  from assms(2,3) have r: "u - d < u" by simp
  from p r have "p div u = l'" "p mod u = u - d" by simp_all
  moreover from assms(3) have "2 * (u - d) > u" by simp
  ultimately show ?thesis by (simp add: round_mult_def l)
qed

lemma floor_double_product:
  fixes A B M n :: nat
  assumes BM: "B * M + 8 = A * 2 ^ 53"
    and A: "16 < A" "A < B" and B: "B \<le> 100"
    and M: "2 ^ 52 \<le> M"
    and n: "0 < n" "n < 2 ^ 32"
  shows "round53 (n * M) div 2 ^ 53 = A * n div B"
proof -
  define T :: nat where "T = 2 ^ 53"
  define P where "P = n * M"
  define k where "k = A * n div B"
  define s where "s = binade_shift P"
  define U :: nat where "U = 2 ^ s"
  define R where "R = round_mult U P"
  have Tpos: "0 < T" by (simp add: T_def)
  have Bpos: "0 < B" using A by simp
  have "B * M < A * T" using BM by (simp add: T_def)
  also have "A * T \<le> B * T" using A by simp
  finally have MT: "M < T" by simp
  have "M \<le> n * M" using n by simp
  with M have P_lo: "2 ^ 52 \<le> P" unfolding P_def by (rule le_trans)
  have "n * M < 2 ^ 32 * T" using n MT by (intro mult_strict_mono) simp_all
  then have P_hi: "P < 2 ^ 85" by (simp add: P_def T_def)
  from binade_shift_bounds [OF P_lo P_hi]
  have s32: "s \<le> 32" and bl: "P < 2 ^ (53 + s)" "2 ^ (52 + s) \<le> P"
    by (simp_all add: s_def)
  have Upos: "0 < U" by (simp add: U_def)
  from s32 have "(2::nat) ^ s \<le> 2 ^ 32" by (intro power_increasing) simp_all
  then have U_le: "U \<le> 2 ^ 32" by (simp add: U_def)
  have U_hi: "P < U * T" using bl(1) by (simp add: U_def T_def power_add mult.commute)
  have TU: "T = 2 ^ (53 - s) * U"
    using s32 by (simp add: T_def U_def flip: power_add)
  have r53: "round53 P = R" by (simp add: round53_def R_def U_def s_def)
  have "n * (B * M + 8) = n * (A * T)" using BM by (simp add: T_def)
  then have BP: "B * P + 8 * n = A * n * T" by (simp add: P_def algebra_simps)
  have k1: "B * k \<le> A * n" by (simp add: k_def)
  have k2: "A * n < B * k + B"
    using Bpos dividend_less_times_div [of B "A * n"] by (simp add: k_def)
  have n8: "8 * n < T" using n(2) by (simp add: T_def)
  have upper: "R < T * Suc k"
  proof -
    have "R \<le> P + U" unfolding R_def using Upos by (rule round_mult_upper)
    then have "B * R \<le> B * P + B * U" by (simp flip: distrib_left)
    also have "B * P \<le> A * n * T" using BP by simp
    also have "B * U \<le> 100 * 2 ^ 32" using B U_le by (rule mult_mono) simp_all
    also have "(100 :: nat) * 2 ^ 32 < T" by (simp add: T_def)
    also have "A * n * T + T = (A * n + 1) * T" by simp
    also have "(A * n + 1) * T \<le> (B * k + B) * T"
      using k2 by (intro mult_right_mono) simp_all
    finally have "B * R < B * (T * Suc k)" by (simp add: algebra_simps)
    then show ?thesis by simp
  qed
  have kTU: "(k * 2 ^ (53 - s)) * U = k * T" by (simp add: TU mult.assoc)
  have lower: "T * k \<le> R"
  proof (cases "A * n = B * k")
    case False
    with k1 have "B * k + 1 \<le> A * n" by simp
    then have "(B * k + 1) * T \<le> A * n * T" by (rule mult_right_mono) simp
    with BP have "B * (k * T) + T \<le> B * P + 8 * n" by (simp add: algebra_simps)
    with n8 have "B * (k * T) \<le> B * P" by linarith
    with Bpos have "k * T \<le> P" by simp
    then have "(k * 2 ^ (53 - s)) * U \<le> P" by (simp only: kTU)
    with Upos have "(k * 2 ^ (53 - s)) * U \<le> R" unfolding R_def by (rule round_mult_lower)
    then show ?thesis by (simp only: kTU mult.commute [of T k])
  next
    case True
    define d where "d = k * T - P"
    from True BP have eq: "B * P + 8 * n = B * (k * T)" by (simp add: algebra_simps)
    then have "B * P \<le> B * (k * T)" by linarith
    with Bpos have le: "P \<le> k * T" by simp
    then have Pd: "P + d = k * T" by (simp add: d_def)
    have "B * d = B * (k * T) - B * P" by (simp add: d_def diff_mult_distrib2)
    with eq have Bd: "B * d = 8 * n" by simp
    with n(1) have dpos: "0 < d" by (cases d) simp_all
    from Bpos have "d \<le> B * d" by simp
    with Bd have "d \<le> 8 * n" by simp
    with n8 have dT: "d < T" by simp
    have "B * (2 * d) = 16 * n" using Bd by simp
    also have "16 * n < A * n" using A(1) n(1) by simp
    also have "A * n = B * k" by (rule True)
    finally have d2k: "2 * d < k" by simp
    from Pd U_hi dT have "k * T < U * T + T" by simp
    then have "k * T < Suc U * T" by simp
    then have "k < Suc U" by (simp only: mult_less_cancel2)
    then have "k \<le> U" by simp
    with d2k have "2 * d < U" by simp
    from Pd have "P + d = (k * 2 ^ (53 - s)) * U" by (simp only: kTU)
    from round_mult_up [OF this dpos \<open>2 * d < U\<close>]
    have "R = k * T" by (simp only: R_def kTU)
    then show ?thesis by simp
  qed
  from lower upper have "R div T = k" by (rule div_nat_eqI)
  then show ?thesis by (simp add: r53 [symmetric] P_def T_def k_def)
qed

lemma floor_times_double:
  "nat \<lfloor>times_double n m\<rfloor> = round53 (n * m) div 2 ^ 53"
proof -
  have "times_double n m = of_nat (round53 (n * m)) / of_nat (2 ^ 53)"
    by (simp add: times_double_def)
  then have "\<lfloor>times_double n m\<rfloor> = int (round53 (n * m) div 2 ^ 53)"
    by (simp only: floor_divide_of_nat_eq)
  then show ?thesis by simp
qed

lemma round53_0 [simp]: "round53 0 = 0"
  by (simp add: round53_def round_mult_def)

text \<open>For every array length the double product has the floor of the exact product.\<close>

lemma p95Index_eq:
  assumes "n < 2 ^ 32"
  shows "p95Index n = 95 * n div 100"
proof (cases "n = 0")
  case True
  then show ?thesis by (simp add: p95Index_def floor_times_double)
next
  case False
  then have "0 < n" by simp
  then have "round53 (n * double_0_95) div 2 ^ 53 = 19 * n div 20"
    using assms by (intro floor_double_product) (simp_all add: double_0_95_def)
  also have "19 * n div 20 = 95 * n div 100" by simp
  finally show ?thesis by (simp add: p95Index_def floor_times_double)
qed

lemma p99Index_eq:
  assumes "n < 2 ^ 32"
  shows "p99Index n = 99 * n div 100"
proof (cases "n = 0")
  case True
  then show ?thesis by (simp add: p99Index_def floor_times_double)
next
  case False
  then have "0 < n" by simp
  then have "round53 (n * double_0_99) div 2 ^ 53 = 99 * n div 100"
    using assms by (intro floor_double_product) (simp_all add: double_0_99_def)
  then show ?thesis by (simp add: p99Index_def floor_times_double)
qed




section \<open>The sample runs\<close>

lemma sample_run:
  "fst (aggregateServiceMetrics sample_driver sample_world empty_query sample_events) =
     Inr [sample_B, sample_A]"
  by code_simp

lemma sample_run_duration:
  "fst (aggregateServiceMetrics sample_driver sample_world duration_query sample_events) =
     Inr [sample_A\<lparr>rank := 1\<rparr>, sample_B\<lparr>rank := 2\<rparr>]"
  by code_simp

lemma sample_run_custom:
  "fst (aggregateServiceMetrics sample_driver sample_world custom_query sample_events) =
     Inr [sample_B_custom, sample_A_custom]"
  by code_simp

section \<open>Request and error totals\<close>



section \<open>Median and percentiles\<close>



section \<open>Ranking\<close>

lemma rank_key_rank_update [simp]: "rank_key crit (s\<lparr>rank := k\<rparr>) = rank_key crit s"
  by (simp add: rank_key_def)

lemma rankServices_nth:
  assumes "i < length (rankServices svcs crit lmt)"
  shows "i < length svcs"
    and "rankServices svcs crit lmt ! i =
           (sort_key (\<lambda>s. - rank_key crit s) svcs ! i)\<lparr>rank := i + 1\<rparr>"
proof -
  let ?sorted = "sort_key (\<lambda>s. - rank_key crit s) svcs"
  let ?ranked = "map (\<lambda>(i, s). s\<lparr>rank := i + 1\<rparr>) (enumerate 0 ?sorted)"
  obtain n where out: "rankServices svcs crit lmt = take n ?ranked"
    using rankServices_prefix by blast
  with assms have i: "i < n" "i < length ?sorted" by simp_all
  then show "i < length svcs" by simp
  from i show "rankServices svcs crit lmt ! i = (?sorted ! i)\<lparr>rank := i + 1\<rparr>"
    unfolding out by (simp add: nth_enumerate_eq del: length_sort)
qed

lemma sort_key_desc:
  assumes "i < j" and "j < length xs"
  shows "f (sort_key (\<lambda>x. - f x) xs ! j) \<le> (f (sort_key (\<lambda>x. - f x) xs ! i) :: rat)"
proof -
  let ?ys = "sort_key (\<lambda>x. - f x) xs"
  have "sorted (map (\<lambda>x. - f x) ?ys)" by (rule sorted_sort_key)
  moreover from assms have "i < j" "j < length (map (\<lambda>x. - f x) ?ys)" by simp_all
  ultimately have "map (\<lambda>x. - f x) ?ys ! i \<le> map (\<lambda>x. - f x) ?ys ! j"
    by (simp only: sorted_iff_nth_mono_less)
  with assms show ?thesis by simp
qed

lemma rankServices_sorted:
  "sorted_wrt (\<lambda>a b. rank_key crit b \<le> rank_key crit a) (rankServices svcs crit lmt)"
proof -
  have "rank_key crit (rankServices svcs crit lmt ! j) \<le> rank_key crit (rankServices svcs crit lmt ! i)"
    if "i < j" "j < length (rankServices svcs crit lmt)" for i j
  proof -
    from that have "i < length (rankServices svcs crit lmt)" by simp
    with that show ?thesis
      by (simp add: rankServices_nth sort_key_desc)
  qed
  then show ?thesis by (simp add: sorted_wrt_iff_nth_less)
qed

lemma criterion_key_eq: "criterion_key q = rank_key (rankBy_or_error q)"
  by (rule ext)
     (auto simp: criterion_key_def rank_key_def rankBy_or_error_def truthy_str_def
           split: option.splits)

text \<open>
  Claim C3. For every query, the output list is in descending order of the key of the
  requested criterion (requests per second for \<open>rate\<close>, error rate for \<open>error\<close> and
  when \<open>rankBy\<close> is absent, average response time for \<open>duration\<close>, the larger of
  average CPU and average memory usage for \<open>saturation\<close>), and the \<open>rank\<close> fields of
  the output, read in order, are \<open>1, 2, \<dots>\<close> up to its length.
\<close>

theorem ranked_output_sorted:
  assumes "fst (aggregateServiceMetrics drv w q evs) = Inr out"
  shows "sorted_wrt (\<lambda>a b. criterion_key q b \<le> criterion_key q a) out \<and>
         map rank out = [1..<Suc (length out)]"
proof -
  from assms obtain svcs where out: "out = rankServices svcs (rankBy_or_error q) (limit q)"
    by (rule aggregate_out)
  have "sorted_wrt (\<lambda>a b. criterion_key q b \<le> criterion_key q a) out"
    unfolding out criterion_key_eq by (rule rankServices_sorted)
  moreover have "map rank out = [1..<Suc (length out)]"
  proof (rule nth_equalityI)
    show "length (map rank out) = length [1..<Suc (length out)]" by (simp del: upt_Suc)
  next
    fix i assume "i < length (map rank out)"
    then have i: "i < length (rankServices svcs (rankBy_or_error q) (limit q))"
      by (simp add: out)
    then have "rank (out ! i) = i + 1"
      unfolding out by (simp add: rankServices_nth(2))
    with i show "map rank out ! i = [1..<Suc (length out)] ! i"
      by (simp add: out del: upt_Suc)
  qed
  ultimately show ?thesis by blast
qed

theorem ranked_output_sorted_witness:
  "fst (aggregateServiceMetrics sample_driver sample_world empty_query sample_events) =
     Inr [sample_B, sample_A] \<and>
   map (criterion_key empty_query) [sample_B, sample_A] = [100, 3333 / 100] \<and>
   sorted_wrt (\<lambda>a b. criterion_key empty_query b \<le> criterion_key empty_query a)
     [sample_B, sample_A] \<and>
   map rank [sample_B, sample_A] = [1..<Suc (length [sample_B, sample_A])] \<and>
   fst (aggregateServiceMetrics sample_driver sample_world duration_query sample_events) =
     Inr [sample_A\<lparr>rank := 1\<rparr>, sample_B\<lparr>rank := 2\<rparr>] \<and>
   map (criterion_key duration_query) [sample_A\<lparr>rank := 1\<rparr>, sample_B\<lparr>rank := 2\<rparr>] =
     [20, 867 / 100] \<and>
   sorted_wrt (\<lambda>a b. criterion_key duration_query b \<le> criterion_key duration_query a)
     [sample_A\<lparr>rank := 1\<rparr>, sample_B\<lparr>rank := 2\<rparr>] \<and>
   map rank [sample_A\<lparr>rank := 1\<rparr>, sample_B\<lparr>rank := 2\<rparr>] =
     [1..<Suc (length [sample_A\<lparr>rank := 1\<rparr>, sample_B\<lparr>rank := 2\<rparr>])]"
proof -
  have keys: "map (criterion_key empty_query) [sample_B, sample_A] = [100, 3333 / 100]"
    "map (criterion_key duration_query) [sample_A\<lparr>rank := 1\<rparr>, sample_B\<lparr>rank := 2\<rparr>] =
       [20, 867 / 100]"
    by (simp_all add: criterion_key_def empty_query_def duration_query_def sample_A_def
          sample_B_def)
  from ranked_output_sorted [OF sample_run] ranked_output_sorted [OF sample_run_duration]
    sample_run sample_run_duration keys
  show ?thesis by blast
qed

section \<open>The error rate\<close>




lemma or_one_nonzero: "or_one x \<noteq> 0"
  by (simp add: or_one_def split: option.splits)

lemma project_stage_succeeds:
  "g_totalRequests g \<noteq> 0 \<Longrightarrow> secs \<noteq> 0 \<Longrightarrow> mins \<noteq> 0 \<Longrightarrow>
     \<exists>r. project_stage secs mins g = Inr r"
  by (simp add: project_stage_def mongo_divide_def)

lemma sum_list_ge_length:
  "\<forall>x \<in> set xs. (1::int) \<le> f x \<Longrightarrow> int (length xs) \<le> sum_list (map f xs)"
  by (induction xs) auto

text \<open>When every event counts at least one request, no group has a zero total, no
  \<open>$divide\<close> fails and the aggregation returns a list.\<close>

lemma aggregate_succeeds:
  assumes "\<forall>e \<in> set evs. 1 \<le> requestCount e"
  shows "\<exists>out. fst (aggregateServiceMetrics drv w q evs) = Inr out"
proof -
  let ?M = "matching drv w q evs"
  have "\<exists>r. project_stage (or_one (timeRangeSeconds drv q)) (or_one (timeRangeMinutes drv q)) g
          = Inr r" if g: "g \<in> set (group_stage ?M)" for g
  proof -
    let ?es = "filter (\<lambda>e. servicename e = g_id g) ?M"
    from g have eq: "g = group_of (g_id g) ?M" by (rule group_stage_mem)
    from g have "?es \<noteq> []" by (rule group_stage_nonempty)
    then have "0 < length ?es" by (metis length_greater_0_conv)
    then have "0 < int (length ?es)" by (simp only: of_nat_0_less_iff)
    moreover from assms have "\<forall>e \<in> set ?es. 1 \<le> requestCount e"
      by (auto simp: matching_def)
    then have "int (length ?es) \<le> sum_list (map requestCount ?es)"
      by (rule sum_list_ge_length)
    ultimately have "0 < sum_list (map requestCount ?es)" by (rule less_le_trans)
    then have "0 < g_totalRequests (group_of (g_id g) ?M)"
      by (simp only: group_of_fields)
    with eq have "g_totalRequests g \<noteq> 0" by simp
    then show ?thesis by (intro project_stage_succeeds or_one_nonzero)
  qed
  then have "\<exists>rs. map_result
      (project_stage (or_one (timeRangeSeconds drv q)) (or_one (timeRangeMinutes drv q)))
      (group_stage ?M) = Inr rs"
    by (intro map_result_total) blast
  then show ?thesis
    by (auto simp: aggregateServiceMetrics_def pipeline_def matching_def Let_def
          split: prod.splits)
qed



section \<open>Error breakdowns\<close>




lemma tally_Nil [simp]: "tally ok [] = []"
  by (simp add: tally_def)




















section \<open>The result limit\<close>

lemma limit_not_read:
  "buildDateFilter drv w (q\<lparr>limit := l\<rparr>) = buildDateFilter drv w q"
  "buildServiceFilter (q\<lparr>limit := l\<rparr>) = buildServiceFilter q"
  "timeRangeSeconds drv (q\<lparr>limit := l\<rparr>) = timeRangeSeconds drv q"
  "timeRangeMinutes drv (q\<lparr>limit := l\<rparr>) = timeRangeMinutes drv q"
  "rankBy_or_error (q\<lparr>limit := l\<rparr>) = rankBy_or_error q"
  by (simp_all add: buildDateFilter_def buildServiceFilter_def timeRangeSeconds_def
        timeRangeMinutes_def getTimeRangeInMs_def rankBy_or_error_def named_range_def
        has_bounds_def)

lemma aggregate_limit:
  "fst (aggregateServiceMetrics drv w (q\<lparr>limit := l\<rparr>) evs) =
     (case pipeline (fst (buildDateFilter drv w q)) (buildServiceFilter q)
             (or_one (timeRangeSeconds drv q)) (or_one (timeRangeMinutes drv q)) evs of
        Inl err \<Rightarrow> Inl err
      | Inr results \<Rightarrow>
          Inr (rankServices (map (\<lambda>(i, r). process_result i r) (enumerate 0 results))
                 (rankBy_or_error q) l))"
  by (simp add: aggregateServiceMetrics_def limit_not_read Let_def
        split: prod.splits sum.splits)

lemma rankServices_limit:
  "0 < k \<Longrightarrow> rankServices svcs crit (Some k) = take (nat k) (rankServices svcs crit None)"
  "rankServices svcs crit (Some 0) = rankServices svcs crit None"
  by (simp_all add: rankServices_def js_slice0_def Let_def)

text \<open>
  Claim C6, as the code has it. \<open>rankServices\<close> truncates only when \<open>limit\<close> is truthy.
  For a limit \<open>k \<ge> 1\<close> the output is exactly the first \<open>k\<close> records of the ranked
  list the same query yields without a limit, so it has at most \<open>k\<close> entries and the
  records ranked beyond \<open>k\<close> are dropped. A limit of \<open>0\<close> is treated like an absent
  limit: the whole ranked list is returned.
\<close>

theorem limit_keeps_top_k:
  assumes "fst (aggregateServiceMetrics drv w (q\<lparr>limit := None\<rparr>) evs) = Inr full"
  shows "(0 < k \<longrightarrow>
            fst (aggregateServiceMetrics drv w (q\<lparr>limit := Some k\<rparr>) evs) =
              Inr (take (nat k) full) \<and>
            int (length (take (nat k) full)) \<le> k) \<and>
         fst (aggregateServiceMetrics drv w (q\<lparr>limit := Some 0\<rparr>) evs) = Inr full"
  using assms
  by (auto simp: aggregate_limit rankServices_limit split: sum.splits)

text \<open>The claim as stated fails for the limit \<open>0\<close>: both sample services are returned.\<close>

theorem limit_zero_counterexample:
  "limit (empty_query\<lparr>limit := Some 0\<rparr>) = Some 0 \<and>
   fst (aggregateServiceMetrics sample_driver sample_world (empty_query\<lparr>limit := Some 0\<rparr>)
          sample_events) = Inr [sample_B, sample_A] \<and>
   \<not> int (length [sample_B, sample_A]) \<le> 0"
proof -
  have "fst (aggregateServiceMetrics sample_driver sample_world (empty_query\<lparr>limit := Some 0\<rparr>)
          sample_events) = Inr [sample_B, sample_A]"
    by code_simp
  then show ?thesis by simp
qed

theorem limit_keeps_top_k_witness:
  "fst (aggregateServiceMetrics sample_driver sample_world (empty_query\<lparr>limit := None\<rparr>)
          sample_events) = Inr [sample_B, sample_A] \<and>
   (0 :: int) < 1 \<and>
   fst (aggregateServiceMetrics sample_driver sample_world (empty_query\<lparr>limit := Some 1\<rparr>)
          sample_events) = Inr [sample_B] \<and>
   int (length [sample_B]) \<le> 1 \<and>
   fst (aggregateServiceMetrics sample_driver sample_world (empty_query\<lparr>limit := Some 0\<rparr>)
          sample_events) = Inr [sample_B, sample_A]"
proof -
  have q: "empty_query\<lparr>limit := None\<rparr> = empty_query" by (simp add: empty_query_def)
  have run: "fst (aggregateServiceMetrics sample_driver sample_world
      (empty_query\<lparr>limit := None\<rparr>) sample_events) = Inr [sample_B, sample_A]"
    unfolding q by (rule sample_run)
  from limit_keeps_top_k [OF run, of 1] run show ?thesis by simp
qed

section \<open>The rate divisors\<close>

lemma getTimeRangeInMinutes_nonneg: "0 \<le> getTimeRangeInMinutes tr"
  by (simp add: getTimeRangeInMinutes_def)

lemma timeRangeSeconds_SomeD:
  "timeRangeSeconds drv q = Some x \<Longrightarrow>
     \<exists>ms. getTimeRangeInMs drv q = Some ms \<and> x = of_int ms / 1000"
  by (auto simp: timeRangeSeconds_def)

lemma negative_window_no_match:
  assumes "timeRangeSeconds drv q = Some x" and "x < 0"
  shows "matching drv w q evs = []"
proof -
  from assms(1) obtain ms where ms: "getTimeRangeInMs drv q = Some ms" and x: "x = of_int ms / 1000"
    using timeRangeSeconds_SomeD by blast
  from x assms(2) have neg: "ms < 0" by simp
  show ?thesis
  proof (cases "named_range q")
    case True
    with ms have "ms = getTimeRangeInMinutes (the (timeRange q)) * 60 * 1000"
      by (simp add: getTimeRangeInMs_def)
    with getTimeRangeInMinutes_nonneg [of "the (timeRange q)"] have "0 \<le> ms" by simp
    with neg show ?thesis by simp
  next
    case named: False
    show ?thesis
    proof (cases "has_bounds q")
      case True
      with named ms have "(case (newDate drv (the (endDate q)), newDate drv (the (startDate q))) of
           (Some e, Some s) \<Rightarrow> Some (e - s) | _ \<Rightarrow> None) = Some ms"
        by (simp add: getTimeRangeInMs_def)
      then obtain e s where
        e: "newDate drv (the (endDate q)) = Some e" and
        s: "newDate drv (the (startDate q)) = Some s" and
        d: "ms = e - s"
        by (auto split: option.splits)
      from d neg have "e < s" by simp
      moreover from named True e s have "fst (buildDateFilter drv w q) = Some (s, e)"
        by (simp add: buildDateFilter_def bsonDate_def)
      ultimately have "\<not> matchStage (fst (buildDateFilter drv w q)) (buildServiceFilter q) ev"
        for ev by (auto simp: matchStage_def)
      then show ?thesis by (simp add: matching_def)
    next
      case False
      with named ms have "ms = 24 * 60 * 60 * 1000"
        by (simp add: getTimeRangeInMs_def)
      with neg show ?thesis by simp
    qed
  qed
qed

lemma or_one_positive: "\<forall>x. v = Some x \<longrightarrow> 0 \<le> x \<Longrightarrow> 0 < or_one v"
  by (cases v) (auto simp: or_one_def)

lemma timeRangeMinutes_sign:
  "timeRangeMinutes drv q = Some y \<Longrightarrow> \<exists>x. timeRangeSeconds drv q = Some x \<and> y = x / 60"
  by (auto simp: timeRangeMinutes_def)

lemma emitted_divisors_positive:
  assumes "matching drv w q evs \<noteq> []"
  shows "0 < or_one (timeRangeSeconds drv q)" and "0 < or_one (timeRangeMinutes drv q)"
proof -
  have sec: "0 \<le> x" if "timeRangeSeconds drv q = Some x" for x
    using negative_window_no_match [OF that, of w evs] assms by (cases "x < 0") auto
  then show "0 < or_one (timeRangeSeconds drv q)" by (intro or_one_positive) blast
  have "0 \<le> y" if "timeRangeMinutes drv q = Some y" for y
  proof -
    from that obtain x where "timeRangeSeconds drv q = Some x" "y = x / 60"
      using timeRangeMinutes_sign by blast
    with sec show ?thesis by simp
  qed
  then show "0 < or_one (timeRangeMinutes drv q)" by (intro or_one_positive) blast
qed

lemma output_rates:
  assumes "fst (aggregateServiceMetrics drv w q evs) = Inr out" and "s \<in> set out"
  shows "requestsPerSecond (rate s) =
           round2 (of_int (totalRequests (rate s)) / or_one (timeRangeSeconds drv q))"
    and "requestsPerMinute (rate s) =
           round2 (of_int (totalRequests (rate s)) / or_one (timeRangeMinutes drv q))"
    and "matching drv w q evs \<noteq> []"
proof -
  from assms obtain r i k where
    p: "project_stage (or_one (timeRangeSeconds drv q)) (or_one (timeRangeMinutes drv q))
       (group_of (servicename_a s) (matching drv w q evs)) = Inr r" and
    s: "s = (process_result i r)\<lparr>rank := k\<rparr>" and
    ne: "events_of drv w q evs (servicename_a s) \<noteq> []"
    by (rule aggregate_elem_group)
  have "requestsPerSecond (rate s) = round2 (r_requestsPerSecond r)"
    "requestsPerMinute (rate s) = round2 (r_requestsPerMinute r)"
    "totalRequests (rate s) = r_totalRequests r"
    by (simp_all add: s process_result_def Let_def)
  then show "requestsPerSecond (rate s) =
           round2 (of_int (totalRequests (rate s)) / or_one (timeRangeSeconds drv q))"
    and "requestsPerMinute (rate s) =
           round2 (of_int (totalRequests (rate s)) / or_one (timeRangeMinutes drv q))"
    by (simp_all only: project_stage_InrD(2,6,7) [OF p])
  from ne show "matching drv w q evs \<noteq> []" by (auto simp: events_of_def)
qed

lemma named_durations:
  "map (\<lambda>tr. timeRangeSeconds drv (q\<lparr>timeRange := Some tr\<rparr>))
     [''5minutes'', ''10minutes'', ''1hour'', ''24hours'', ''7days''] =
   [Some 300, Some 600, Some 3600, Some 86400, Some 604800]"
  by (simp add: timeRangeSeconds_def getTimeRangeInMs_def named_range_def truthy_str_def
        getTimeRangeInMinutes_def)

lemma custom_window:
  assumes "\<not> named_range q" and "has_bounds q"
    and "newDate drv (the (startDate q)) = Some a" and "newDate drv (the (endDate q)) = Some b"
  shows "timeRangeSeconds drv q = Some (of_int (b - a) / 1000)"
    and "fst (buildDateFilter drv w q) = Some (a, b)"
  using assms
  by (simp_all add: timeRangeSeconds_def getTimeRangeInMs_def buildDateFilter_def bsonDate_def)

lemma default_window:
  assumes "\<not> named_range q" and "\<not> has_bounds q"
  shows "timeRangeSeconds drv q = Some 86400" and "fst (buildDateFilter drv w q) = None"
  using assms
  by (simp_all add: timeRangeSeconds_def getTimeRangeInMs_def buildDateFilter_def)

text \<open>
  Claim C7, as the code has it. The divisors of \<open>requestsPerSecond\<close> and
  \<open>requestsPerMinute\<close> are \<open>timeRangeSeconds || 1\<close> and \<open>timeRangeMinutes || 1\<close>, and
  they are never zero. A named time range yields its fixed duration (300, 600, 3600,
  86400, 604800 seconds); explicit bounds that parse yield \<open>endDate - startDate\<close> and
  the filter between them; a query with neither a named range nor both bounds yields
  the 86400 second default and no time filter; a duration of zero, or one that is
  \<open>NaN\<close>, is replaced by 1. A negative duration is not replaced, but then no event passes
  the time filter: for every service record in the output both divisors are strictly
  positive, and the two rates are the total divided by them, rounded to two decimals.
\<close>

theorem rate_divisors:
  "(fst (aggregateServiceMetrics drv w q evs) = Inr out \<and> s \<in> set out \<longrightarrow>
      0 < or_one (timeRangeSeconds drv q) \<and> 0 < or_one (timeRangeMinutes drv q) \<and>
      requestsPerSecond (rate s) =
        round2 (of_int (totalRequests (rate s)) / or_one (timeRangeSeconds drv q)) \<and>
      requestsPerMinute (rate s) =
        round2 (of_int (totalRequests (rate s)) / or_one (timeRangeMinutes drv q))) \<and>
   or_one (timeRangeSeconds drv q) \<noteq> 0 \<and> or_one (timeRangeMinutes drv q) \<noteq> 0 \<and>
   map (\<lambda>tr. timeRangeSeconds drv (q\<lparr>timeRange := Some tr\<rparr>))
     [''5minutes'', ''10minutes'', ''1hour'', ''24hours'', ''7days''] =
     [Some 300, Some 600, Some 3600, Some 86400, Some 604800] \<and>
   (\<not> named_range q \<and> has_bounds q \<and>
    newDate drv (the (startDate q)) = Some a \<and> newDate drv (the (endDate q)) = Some b \<longrightarrow>
      timeRangeSeconds drv q = Some (of_int (b - a) / 1000) \<and>
      fst (buildDateFilter drv w q) = Some (a, b)) \<and>
   (\<not> named_range q \<and> \<not> has_bounds q \<longrightarrow>
      timeRangeSeconds drv q = Some 86400 \<and> fst (buildDateFilter drv w q) = None) \<and>
   or_one (Some 0) = 1 \<and> or_one None = 1"
proof -
  have "0 < or_one (timeRangeSeconds drv q) \<and> 0 < or_one (timeRangeMinutes drv q) \<and>
      requestsPerSecond (rate s) =
        round2 (of_int (totalRequests (rate s)) / or_one (timeRangeSeconds drv q)) \<and>
      requestsPerMinute (rate s) =
        round2 (of_int (totalRequests (rate s)) / or_one (timeRangeMinutes drv q))"
    if "fst (aggregateServiceMetrics drv w q evs) = Inr out" "s \<in> set out"
    using output_rates [OF that] emitted_divisors_positive [of drv w q evs] by blast
  moreover have "or_one (Some 0) = 1" "or_one None = 1" by (simp_all add: or_one_def)
  ultimately show ?thesis
    using or_one_nonzero named_durations custom_window default_window by blast
qed

text \<open>The claim as stated fails when \<open>endDate\<close> precedes \<open>startDate\<close>: the duration of
  \<open>-100\<close> seconds is kept and both divisors are negative.\<close>

theorem negative_window_counterexample:
  "getTimeRangeInMs sample_driver reversed_query = Some (- 100000) \<and>
   or_one (timeRangeSeconds sample_driver reversed_query) = - 100 \<and>
   or_one (timeRangeMinutes sample_driver reversed_query) = - (5 / 3) \<and>
   \<not> 0 < or_one (timeRangeSeconds sample_driver reversed_query)"
proof -
  have "getTimeRangeInMs sample_driver reversed_query = Some (- 100000)"
    "or_one (timeRangeSeconds sample_driver reversed_query) = - 100"
    "or_one (timeRangeMinutes sample_driver reversed_query) = - (5 / 3)"
    by code_simp+
  then show ?thesis by simp
qed

theorem rate_divisors_witness:
  "fst (aggregateServiceMetrics sample_driver sample_world custom_query sample_events) =
     Inr [sample_B_custom, sample_A_custom] \<and>
   sample_A_custom \<in> set [sample_B_custom, sample_A_custom] \<and>
   \<not> named_range custom_query \<and> has_bounds custom_query \<and>
   newDate sample_driver (the (startDate custom_query)) = Some 900000 \<and>
   newDate sample_driver (the (endDate custom_query)) = Some 1000000 \<and>
   timeRangeSeconds sample_driver custom_query = Some (of_int (1000000 - 900000) / 1000) \<and>
   fst (buildDateFilter sample_driver sample_world custom_query) = Some (900000, 1000000) \<and>
   0 < or_one (timeRangeSeconds sample_driver custom_query) \<and>
   0 < or_one (timeRangeMinutes sample_driver custom_query) \<and>
   requestsPerSecond (rate sample_A_custom) =
     round2 (of_int (totalRequests (rate sample_A_custom)) /
       or_one (timeRangeSeconds sample_driver custom_query)) \<and>
   requestsPerMinute (rate sample_A_custom) =
     round2 (of_int (totalRequests (rate sample_A_custom)) /
       or_one (timeRangeMinutes sample_driver custom_query)) \<and>
   requestsPerSecond (rate sample_A_custom) = 3 / 100 \<and>
   \<not> named_range empty_query \<and> \<not> has_bounds empty_query \<and>
   timeRangeSeconds sample_driver empty_query = Some 86400 \<and>
   fst (buildDateFilter sample_driver sample_world empty_query) = None"
proof -
  have mem: "sample_A_custom \<in> set [sample_B_custom, sample_A_custom]" by simp
  have c: "\<not> named_range custom_query" "has_bounds custom_query"
    "newDate sample_driver (the (startDate custom_query)) = Some 900000"
    "newDate sample_driver (the (endDate custom_query)) = Some 1000000"
    by (simp_all add: named_range_def has_bounds_def truthy_str_def custom_query_def
          empty_query_def sample_driver_def sample_newDate_def)
  have d: "\<not> named_range empty_query" "\<not> has_bounds empty_query"
    by (simp_all add: named_range_def has_bounds_def truthy_str_def empty_query_def)
  have v: "requestsPerSecond (rate sample_A_custom) = 3 / 100"
    by (simp add: sample_A_custom_def)
  from rate_divisors [of sample_driver sample_world custom_query sample_events
      "[sample_B_custom, sample_A_custom]" sample_A_custom 900000 1000000]
    rate_divisors [of sample_driver sample_world empty_query sample_events
      "[sample_B, sample_A]" sample_A 0 0]
    sample_run_custom mem c d v
  show ?thesis by blast
qed

section \<open>Order of the duration statistics\<close>











section \<open>Determinism\<close>





section \<open>Percentile indices stay inside the array\<close>

text \<open>
  Claim C10. For a non-empty array of response times of length \<open>n\<close> (a JavaScript
  array, so \<open>n < 2^32\<close>), the indices \<open>Math.floor(n * 0.95)\<close> and
  \<open>Math.floor(n * 0.99)\<close>, computed in double precision, are at most \<open>n - 1\<close>, so
  both reads of the sorted array in \<open>process_result\<close> find an element and never
  yield \<open>undefined\<close>.
\<close>

theorem percentile_index_in_bounds:
  assumes "xs \<noteq> []" and "length xs < 2 ^ 32"
  shows "p95Index (length xs) \<le> length xs - 1 \<and> p99Index (length xs) \<le> length xs - 1 \<and>
         js_get (sort xs) (p95Index (length (sort xs))) = Some (sort xs ! (p95Index (length xs))) \<and>
         js_get (sort xs) (p99Index (length (sort xs))) = Some (sort xs ! (p99Index (length xs)))"
proof -
  from assms(1) have "0 < length xs" by simp
  then have lt: "95 * length xs div 100 < length xs" "99 * length xs div 100 < length xs"
    by arith+
  then have "95 * length xs div 100 \<le> length xs - 1" "99 * length xs div 100 \<le> length xs - 1"
    by linarith+
  with lt show ?thesis
    by (simp add: p95Index_eq [OF assms(2)] p99Index_eq [OF assms(2)] js_get_def
          del: One_nat_def)
qed

theorem percentile_index_in_bounds_witness:
  "[30, 10, 20 :: rat] \<noteq> [] \<and> length [30, 10, 20 :: rat] < 2 ^ 32 \<and>
   p95Index 3 = 2 \<and> p99Index 3 = 2 \<and>
   p95Index (length [30, 10, 20 :: rat]) \<le> length [30, 10, 20 :: rat] - 1 \<and>
   p99Index (length [30, 10, 20 :: rat]) \<le> length [30, 10, 20 :: rat] - 1 \<and>
   js_get (sort [30, 10, 20 :: rat]) (p95Index (length (sort [30, 10, 20 :: rat]))) =
     Some (sort [30, 10, 20 :: rat] ! (p95Index (length [30, 10, 20 :: rat]))) \<and>
   js_get (sort [30, 10, 20 :: rat]) (p99Index (length (sort [30, 10, 20 :: rat]))) =
     Some (sort [30, 10, 20 :: rat] ! (p99Index (length [30, 10, 20 :: rat])))"
proof -
  have ne: "[30, 10, 20 :: rat] \<noteq> []" by simp
  have len: "length [30, 10, 20 :: rat] < 2 ^ 32" by simp
  have idx: "p95Index 3 = 2" "p99Index 3 = 2" by code_simp+
  from percentile_index_in_bounds [OF ne len] ne len idx show ?thesis
    by - (intro conjI; (elim conjE)?; assumption)
qed

end
